theory Spec2Isabelle
  imports Main "HOL-Library.Sublist"
begin

section \<open>Python strings\<close>

text \<open>
  A Python \<open>str\<close> is modelled as a \<open>string\<close> whose characters are the code points
  below 256. On that range \<open>str.lower\<close> maps a character to a single character of the
  same range and \<open>str.isspace\<close> holds of twelve characters, so both are written out
  in full below.
\<close>

definition lower_char :: "char \<Rightarrow> char" where
  "lower_char c =
     (let n = (of_char c :: nat)
      in if (65 \<le> n \<and> n \<le> 90) \<or> (192 \<le> n \<and> n \<le> 222 \<and> n \<noteq> 215)
         then char_of (n + 32) else c)"

definition lower :: "string \<Rightarrow> string" where
  "lower s = map lower_char s"

definition isspace :: "char \<Rightarrow> bool" where
  "isspace c =
     (let n = (of_char c :: nat)
      in (9 \<le> n \<and> n \<le> 13) \<or> (28 \<le> n \<and> n \<le> 32) \<or> n = 133 \<or> n = 160)"

text \<open>\<open>s.strip()\<close>: leading and trailing whitespace removed.\<close>

definition strip :: "string \<Rightarrow> string" where
  "strip s = rev (dropWhile isspace (rev (dropWhile isspace s)))"

text \<open>\<open>s.find(sub)\<close>: the index of the leftmost occurrence, \<open>None\<close> for Python's \<open>-1\<close>.\<close>

fun find_str :: "string \<Rightarrow> string \<Rightarrow> nat option" where
  "find_str [] sub = (if sub = [] then Some 0 else None)"
| "find_str (c # cs) sub =
     (if prefix sub (c # cs) then Some 0 else map_option Suc (find_str cs sub))"

text \<open>\<open>sub in s\<close> for two strings.\<close>

definition str_contains :: "string \<Rightarrow> string \<Rightarrow> bool" where
  "str_contains s sub = (find_str s sub \<noteq> None)"

text \<open>
  \<open>s.split(sep)\<close> for a non-empty separator: cut at the leftmost occurrence, go on
  behind it.
\<close>

function split_nonempty :: "string \<Rightarrow> string \<Rightarrow> string list" where
  "split_nonempty sep s =
     (if sep = [] then [s]
      else case find_str s sep of
             None \<Rightarrow> [s]
           | Some i \<Rightarrow> take i s # split_nonempty sep (drop (i + length sep) s))"
  by pat_completeness auto

termination split_nonempty
proof (relation "measure (\<lambda>(sep, s). length s)")
  show "wf (measure (\<lambda>(sep, s). length s))" by simp
next
  fix sep s :: string and i :: nat
  assume "sep \<noteq> []" and "find_str s sep = Some i"
  then have "s \<noteq> []" by (cases s) auto
  with \<open>sep \<noteq> []\<close> show "((sep, drop (i + length sep) s), (sep, s)) \<in> measure (\<lambda>(sep, s). length s)"
    by (cases sep) auto
qed

section \<open>Python values and exceptions\<close>

text \<open>
  What the provider client hands back is the parsed response body: a Python value built
  from \<open>None\<close>, booleans, integers, strings, lists and dicts with string keys. A dict is
  an association list in insertion order; a lookup takes the first binding of a key.
\<close>

datatype pyval =
    PNone
  | PBool bool
  | PInt int
  | PStr string
  | PList "pyval list"
  | PDict "(string \<times> pyval) list"

fun type_name :: "pyval \<Rightarrow> string" where
  "type_name PNone = ''NoneType''"
| "type_name (PBool _) = ''bool''"
| "type_name (PInt _) = ''int''"
| "type_name (PStr _) = ''str''"
| "type_name (PList _) = ''list''"
| "type_name (PDict _) = ''dict''"

text \<open>
  The exceptions of the lookup, all of them subclasses of \<open>Exception\<close>:
  whatever the provider client raises (with its text), a missing attribute
  (type and attribute), an operation the type does not support (type and operation),
  an empty separator, an index out of range, a missing key, and whatever the agent
  runtime raises (with its text).
\<close>

datatype error =
    ProviderError string
  | AttributeError string string
  | TypeError string string
  | ValueError
  | IndexError
  | KeyError string
  | RuntimeError string

text \<open>Truth value of a Python value, as \<open>if\<close>, \<open>and\<close> and \<open>not\<close> test it.\<close>

fun truthy :: "pyval \<Rightarrow> bool" where
  "truthy PNone = False"
| "truthy (PBool b) = b"
| "truthy (PInt n) = (n \<noteq> 0)"
| "truthy (PStr s) = (s \<noteq> [])"
| "truthy (PList xs) = (xs \<noteq> [])"
| "truthy (PDict kvs) = (kvs \<noteq> [])"

text \<open>\<open>k in v\<close> for a string \<open>k\<close>.\<close>

fun py_in :: "string \<Rightarrow> pyval \<Rightarrow> error + bool" where
  "py_in k (PDict kvs) = Inr (map_of kvs k \<noteq> None)"
| "py_in k (PList xs) = Inr (PStr k \<in> set xs)"
| "py_in k (PStr s) = Inr (str_contains s k)"
| "py_in k v = Inl (TypeError (type_name v) ''in'')"

text \<open>\<open>v[k]\<close> for a string \<open>k\<close>.\<close>

fun py_getitem :: "pyval \<Rightarrow> string \<Rightarrow> error + pyval" where
  "py_getitem (PDict kvs) k = (case map_of kvs k of None \<Rightarrow> Inl (KeyError k) | Some x \<Rightarrow> Inr x)"
| "py_getitem v k = Inl (TypeError (type_name v) ''subscript'')"

text \<open>The keys of a dict, each once, in insertion order.\<close>

definition dict_keys :: "(string \<times> pyval) list \<Rightarrow> string list" where
  "dict_keys kvs = rev (remdups (rev (map fst kvs)))"

text \<open>The values a \<open>for\<close> loop over \<open>v\<close> visits.\<close>

fun py_iter :: "pyval \<Rightarrow> error + pyval list" where
  "py_iter (PList xs) = Inr xs"
| "py_iter (PStr s) = Inr (map (\<lambda>c. PStr [c]) s)"
| "py_iter (PDict kvs) = Inr (map PStr (dict_keys kvs))"
| "py_iter v = Inl (TypeError (type_name v) ''iter'')"

text \<open>\<open>v.get(k)\<close>: the value at \<open>k\<close>, \<open>None\<close> where the dict has no such key.\<close>

fun py_get :: "pyval \<Rightarrow> string \<Rightarrow> error + pyval" where
  "py_get (PDict kvs) k = Inr (case map_of kvs k of None \<Rightarrow> PNone | Some x \<Rightarrow> x)"
| "py_get v k = Inl (AttributeError (type_name v) ''get'')"

text \<open>\<open>s.split(sep)\<close>, which refuses an empty separator.\<close>

definition split :: "string \<Rightarrow> string \<Rightarrow> error + string list" where
  "split s sep = (if sep = [] then Inl ValueError else Inr (split_nonempty sep s))"

section \<open>The world: log, console, outbound requests\<close>

text \<open>
  Logging, printing and the provider call are effects; the model threads a world through
  the code and appends to it. A log record holds its level, which call site wrote it
  together with the values it interpolates, and the exception whose traceback
  \<open>logging.exception\<close> attaches. The rendering of a message as text is not modelled.
\<close>

type_synonym date = "nat \<times> nat \<times> nat"

datatype prompt = DailyPrompt date

datatype level = INFO | ERROR

datatype log_msg =
    MissingConfig
  | ToolCalled string
  | ToolFetchError string error
  | AttemptingSearch
  | SearchQuery string
  | ApiReturned nat
  | InitialPrompt prompt
  | EventToolCode string pyval
  | EventToolResponse pyval
  | EventError string
  | UnhandledRunError

record log_record =
  lvl :: level
  msg :: log_msg
  exc_info :: "error option"

datatype console_line =
    RunningFor date
  | DebugToolUse string pyval
  | DebugToolReturned pyval
  | FinalOutputHeader
  | AgentText string
  | AgentError string
  | UnhandledError error
  | ExecutionComplete

text \<open>
  One request to the search provider: the service built at line 74 and the arguments of
  \<open>list\<close> at line 79.
\<close>

record request =
  api :: string
  version :: string
  developerKey :: string
  q :: string
  cx :: string
  num :: nat

record world =
  logged :: "log_record list"
  console :: "console_line list"
  requests :: "request list"
  prompts :: "prompt list"

definition logging_info :: "log_msg \<Rightarrow> world \<Rightarrow> world" where
  "logging_info m w = w\<lparr>logged := logged w @ [\<lparr>lvl = INFO, msg = m, exc_info = None\<rparr>]\<rparr>"

definition logging_error :: "log_msg \<Rightarrow> world \<Rightarrow> world" where
  "logging_error m w = w\<lparr>logged := logged w @ [\<lparr>lvl = ERROR, msg = m, exc_info = None\<rparr>]\<rparr>"

definition logging_exception :: "log_msg \<Rightarrow> error \<Rightarrow> world \<Rightarrow> world" where
  "logging_exception m e w = w\<lparr>logged := logged w @ [\<lparr>lvl = ERROR, msg = m, exc_info = Some e\<rparr>]\<rparr>"

definition print :: "console_line \<Rightarrow> world \<Rightarrow> world" where
  "print l w = w\<lparr>console := console w @ [l]\<rparr>"

section \<open>The special-day lookup tool\<close>

text \<open>The two module-level configuration values, once the startup check has passed.\<close>

record config =
  GOOGLE_CSE_API_KEY :: string
  GOOGLE_CSE_ID :: string

text \<open>
  The search provider, as the code sees it. Building the service object (line 74, with
  literal arguments and the key) sends nothing and is taken to return; executing the
  request (line 79) either raises or returns the parsed response.
\<close>

type_synonym provider = "request \<Rightarrow> error + pyval"

text \<open>The result dict, in insertion order.\<close>

type_synonym results = "(string \<times> string) list"

text \<open>The body of the loop, lines 83 to 90, for one item.\<close>

definition process_item :: "results \<Rightarrow> pyval \<Rightarrow> error + results" where
  "process_item results item =
     (case py_get item ''title'' of
        Inl e \<Rightarrow> Inl e
      | Inr title \<Rightarrow>
     (case py_get item ''snippet'' of
        Inl e \<Rightarrow> Inl e
      | Inr snippet \<Rightarrow>
          if truthy title \<and> truthy snippet then
            (case title of
               PStr t \<Rightarrow>
                 if str_contains (lower t) ''day'' \<or> str_contains (lower t) ''observance'' then
                   (case snippet of
                      PStr s \<Rightarrow>
                        (case split s ''...'' of
                           Inl e \<Rightarrow> Inl e
                         | Inr [] \<Rightarrow> Inl IndexError
                         | Inr (p # _) \<Rightarrow>
                             (let description = strip p
                              in if map_of results t = None
                                 then Inr (results @ [(t, description)])
                                 else Inr results))
                    | _ \<Rightarrow> Inl (AttributeError (type_name snippet) ''split''))
                 else Inr results
             | _ \<Rightarrow> Inl (AttributeError (type_name title) ''lower''))
          else Inr results))"

text \<open>The \<open>for\<close> loop of line 82; an exception leaves it at once.\<close>

fun process_items :: "pyval list \<Rightarrow> results \<Rightarrow> error + results" where
  "process_items [] results = Inr results"
| "process_items (item # items) results =
     (case process_item results item of
        Inl e \<Rightarrow> Inl e
      | Inr results' \<Rightarrow> process_items items results')"

text \<open>Lines 81 to 90: from the response to the result dict.\<close>

definition collect :: "pyval \<Rightarrow> error + results" where
  "collect res =
     (case py_in ''items'' res of
        Inl e \<Rightarrow> Inl e
      | Inr False \<Rightarrow> Inr []
      | Inr True \<Rightarrow>
          (case py_getitem res ''items'' of
             Inl e \<Rightarrow> Inl e
           | Inr v \<Rightarrow>
               (case py_iter v of
                  Inl e \<Rightarrow> Inl e
                | Inr items \<Rightarrow> process_items items [])))"

text \<open>Line 76: the search query.\<close>

definition search_query :: "string \<Rightarrow> string" where
  "search_query date_query =
     ''international OR world OR national day '' @ date_query @ '' official observances''"

definition search_request :: "config \<Rightarrow> string \<Rightarrow> request" where
  "search_request cfg date_query =
     \<lparr>api = ''customsearch'', version = ''v1'', developerKey = GOOGLE_CSE_API_KEY cfg,
      q = search_query date_query, cx = GOOGLE_CSE_ID cfg, num = 5\<rparr>"

text \<open>\<open>_search_special_days\<close>, lines 67 to 92.\<close>

definition search_special_days ::
  "config \<Rightarrow> provider \<Rightarrow> string \<Rightarrow> world \<Rightarrow> (error + results) \<times> world" where
  "search_special_days cfg prov date_query w =
     (let w1 = logging_info AttemptingSearch w;
          w2 = logging_info (SearchQuery (search_query date_query)) w1;
          req = search_request cfg date_query;
          w3 = w2\<lparr>requests := requests w2 @ [req]\<rparr>
      in case prov req of
           Inl e \<Rightarrow> (Inl e, w3)
         | Inr res \<Rightarrow>
             (case collect res of
                Inl e \<Rightarrow> (Inl e, w3)
              | Inr results \<Rightarrow> (Inr results, logging_info (ApiReturned (length results)) w3)))"

text \<open>
  \<open>get_special_day_info_from_external_source\<close>, lines 38 to 65. The result is a sum so
  that an exception leaving the function would be a value \<open>Inl\<close>.
\<close>

definition get_special_day_info_from_external_source ::
  "config \<Rightarrow> provider \<Rightarrow> string \<Rightarrow> world \<Rightarrow> (error + results) \<times> world" where
  "get_special_day_info_from_external_source cfg prov date_query w =
     (let w1 = logging_info (ToolCalled date_query) w
      in case search_special_days cfg prov date_query w1 of
           (Inr results, w2) \<Rightarrow> (Inr results, w2)
         | (Inl e, w2) \<Rightarrow> (Inr [], logging_error (ToolFetchError date_query e) w2))"

section \<open>The agent and the main block\<close>

text \<open>
  The agent runtime is outside the repository. What the code sees of it is the iterator that
  \<open>runner.run\<close> returns: it ends, raises, or yields an event and goes on; in between it may
  call the registered tool and go on from the tool's answer. A run is finite. An event has
  a type and, per type, an attribute that may be missing (\<open>None\<close>), in which case reading
  its fields raises.
\<close>

record tool_code_attr =
  tool_name :: string
  args :: pyval

record event =
  etype :: string
  tool_code :: "tool_code_attr option"
  tool_response :: "pyval option"
  agent_response :: "string option"
  error_message :: "string option"

datatype run =
    Done
  | Raise error
  | Yield event run
  | CallTool string "error + results \<Rightarrow> run"

text \<open>
  The environment of the process: the two environment variables after \<open>load_dotenv\<close>, the
  search provider, today's date, the member names of the enumeration \<open>HarmCategory\<close> (it
  belongs to the framework, not to the repository), and the runtime.
\<close>

record env =
  getenv_GOOGLE_CSE_API_KEY :: "string option"
  getenv_GOOGLE_CSE_ID :: "string option"
  provider_of :: provider
  today :: date
  HarmCategory_members :: "string list"
  runner_run :: "prompt \<Rightarrow> run"

text \<open>
  The \<open>for\<close> loop of lines 151 to 165. The result is the exception that left the loop, if any,
  and the world. \<open>break\<close> leaves the rest of the iterator unread.
\<close>

primrec consume :: "config \<Rightarrow> provider \<Rightarrow> run \<Rightarrow> world \<Rightarrow> error option \<times> world" where
  "consume cfg prov Done = (\<lambda>w. (None, w))"
| "consume cfg prov (Raise e) = (\<lambda>w. (Some e, w))"
| "consume cfg prov (Yield ev rest) = (\<lambda>w.
     if etype ev = ''tool_code'' then
       (case tool_code ev of
          None \<Rightarrow> (Some (AttributeError ''NoneType'' ''tool_name''), w)
        | Some tc \<Rightarrow>
            consume cfg prov rest
              (print (DebugToolUse (tool_name tc) (args tc))
                (logging_info (EventToolCode (tool_name tc) (args tc)) w)))
     else if etype ev = ''tool_response'' then
       (case tool_response ev of
          None \<Rightarrow> (Some (AttributeError ''NoneType'' ''output''), w)
        | Some out \<Rightarrow>
            consume cfg prov rest
              (print (DebugToolReturned out) (logging_info (EventToolResponse out) w)))
     else if etype ev = ''agent_response'' then
       (case agent_response ev of
          None \<Rightarrow> (Some (AttributeError ''NoneType'' ''text''), print FinalOutputHeader w)
        | Some txt \<Rightarrow> (None, print (AgentText txt) (print FinalOutputHeader w)))
     else if etype ev = ''error'' then
       (case error_message ev of
          None \<Rightarrow> (Some (AttributeError ''NoneType'' ''message''), w)
        | Some m \<Rightarrow> (None, print (AgentError m) (logging_error (EventError m) w)))
     else consume cfg prov rest w)"
| "consume cfg prov (CallTool date_query k) = (\<lambda>w.
     case get_special_day_info_from_external_source cfg prov date_query w of
       (r, w') \<Rightarrow> consume cfg prov (k r) w')"

text \<open>
  \<open>SpecialDayAgent.run_daily_check\<close>, lines 135 to 168. The result is a sum so that an
  exception leaving the method would be a value \<open>Inl\<close>.
\<close>

definition run_daily_check :: "config \<Rightarrow> env \<Rightarrow> world \<Rightarrow> (error + unit) \<times> world" where
  "run_daily_check cfg env w =
     (let initial_prompt = DailyPrompt (today env);
          w1 = print (RunningFor (today env)) w;
          w2 = logging_info (InitialPrompt initial_prompt) w1;
          w3 = w2\<lparr>prompts := prompts w2 @ [initial_prompt]\<rparr>
      in case consume cfg (provider_of env) (runner_run env initial_prompt) w3 of
           (None, w4) \<Rightarrow> (Inr (), w4)
         | (Some e, w4) \<Rightarrow>
             (Inr (), print (UnhandledError e) (logging_exception UnhandledRunError e w4)))"

text \<open>How the process ends: \<open>sys.exit\<close> with a status, an uncaught exception, or the end of the script.\<close>

text \<open>\<open>HarmCategory.name\<close>: the member of that name, or an \<open>AttributeError\<close>.\<close>

definition getattr_HarmCategory :: "string list \<Rightarrow> string \<Rightarrow> error + string" where
  "getattr_HarmCategory members name =
     (if name \<in> set members then Inr name else Inl (AttributeError ''HarmCategory'' name))"

text \<open>
  The keys of the dict of lines 126 to 131, looked up in the order in which they are written.
\<close>

definition safety_settings :: "string list \<Rightarrow> error + string list" where
  "safety_settings members =
     (case getattr_HarmCategory members ''HARM_CATEGORY_HARASSMENT'' of
        Inl e \<Rightarrow> Inl e
      | Inr k1 \<Rightarrow>
     (case getattr_HarmCategory members ''HARMS_CATEGORY_HATE_SPEECH'' of
        Inl e \<Rightarrow> Inl e
      | Inr k2 \<Rightarrow>
     (case getattr_HarmCategory members ''HARMS_CATEGORY_SEXUALLY_EXPLICIT'' of
        Inl e \<Rightarrow> Inl e
      | Inr k3 \<Rightarrow>
     (case getattr_HarmCategory members ''HARMS_CATEGORY_DANGEROUS_CONTENT'' of
        Inl e \<Rightarrow> Inl e
      | Inr k4 \<Rightarrow> Inr [k1, k2, k3, k4]))))"

text \<open>
  \<open>SpecialDayAgent.__init__\<close>, lines 100 to 133: the arguments of the agent are evaluated,
  among them the safety settings; the constructors of the agent and of the runner are
  taken to return.
\<close>

definition SpecialDayAgent_init :: "string list \<Rightarrow> error + unit" where
  "SpecialDayAgent_init members =
     (case safety_settings members of Inl e \<Rightarrow> Inl e | Inr settings \<Rightarrow> Inr ())"

datatype outcome = Exit nat | Uncaught error | Completed

text \<open>\<open>not v\<close> for what \<open>os.getenv\<close> returned: \<open>None\<close> or a string.\<close>

definition not_set :: "string option \<Rightarrow> bool" where
  "not_set v = (case v of None \<Rightarrow> True | Some s \<Rightarrow> s = [])"

text \<open>The string that \<open>os.getenv\<close> returned, read where the check has passed.\<close>

definition value_of :: "string option \<Rightarrow> string" where
  "value_of v = (case v of None \<Rightarrow> [] | Some s \<Rightarrow> s)"

text \<open>The script run as the main module: the check of lines 28 to 35, then lines 171 to 184.\<close>

definition script :: "env \<Rightarrow> world \<Rightarrow> outcome \<times> world" where
  "script env w =
     (if not_set (getenv_GOOGLE_CSE_API_KEY env) \<or> not_set (getenv_GOOGLE_CSE_ID env)
      then (Exit 1, logging_error MissingConfig w)
      else
        (let cfg = \<lparr>GOOGLE_CSE_API_KEY = value_of (getenv_GOOGLE_CSE_API_KEY env),
                    GOOGLE_CSE_ID = value_of (getenv_GOOGLE_CSE_ID env)\<rparr>
         in case SpecialDayAgent_init (HarmCategory_members env) of
              Inl e \<Rightarrow> (Uncaught e, w)
            | Inr agent \<Rightarrow>
                (case run_daily_check cfg env w of
                   (Inl e, w') \<Rightarrow> (Uncaught e, w')
                 | (Inr u, w') \<Rightarrow> (Completed, print ExecutionComplete w'))))"

section \<open>What the specification says of an item\<close>

text \<open>
  The text of \<open>s\<close> up to its first occurrence of \<open>sep\<close>; all of \<open>s\<close> where \<open>sep\<close> does not
  occur.
\<close>

fun text_before_first :: "string \<Rightarrow> string \<Rightarrow> string" where
  "text_before_first sep [] = []"
| "text_before_first sep (c # cs) =
     (if prefix sep (c # cs) then [] else c # text_before_first sep cs)"

text \<open>
  An accepted item and the entry derived from it: the item has a title and a snippet, both
  non-empty strings, the title contains \<open>day\<close> or \<open>observance\<close> in some letter case, and the
  entry maps the title to the trimmed text of the snippet before its first \<open>...\<close>.
\<close>

definition title_matches :: "string \<Rightarrow> bool" where
  "title_matches t = (sublist ''day'' (lower t) \<or> sublist ''observance'' (lower t))"

definition entry_of :: "pyval \<Rightarrow> (string \<times> string) option" where
  "entry_of item =
     (case item of
        PDict kvs \<Rightarrow>
          (case (map_of kvs ''title'', map_of kvs ''snippet'') of
             (Some (PStr t), Some (PStr s)) \<Rightarrow>
               if t \<noteq> [] \<and> s \<noteq> [] \<and> title_matches t
               then Some (t, strip (text_before_first ''...'' s)) else None
           | _ \<Rightarrow> None)
      | _ \<Rightarrow> None)"

section \<open>Example inputs\<close>

definition example_config :: config where
  "example_config = \<lparr>GOOGLE_CSE_API_KEY = ''key'', GOOGLE_CSE_ID = ''engine''\<rparr>"

definition empty_world :: world where
  "empty_world = \<lparr>logged = [], console = [], requests = [], prompts = []\<rparr>"

definition example_item :: pyval where
  "example_item = PDict [(''title'', PStr ''International Day of X''),
                         (''snippet'', PStr ''A day for X... more text'')]"

definition second_item :: pyval where
  "second_item = PDict [(''title'', PStr ''International Day of X''),
                        (''snippet'', PStr ''Another text... and more'')]"

definition other_item :: pyval where
  "other_item = PDict [(''title'', PStr ''Weather forecast''), (''snippet'', PStr ''Rain'')]"

definition empty_title_item :: "(string \<times> pyval) list" where
  "empty_title_item = [(''title'', PStr ''''), (''snippet'', PStr ''A day'')]"


definition example_provider :: provider where
  "example_provider req = Inr (PDict [(''items'', PList [example_item, second_item, other_item])])"

definition failing_provider :: provider where
  "failing_provider req = Inl (ProviderError ''timed out'')"


definition no_items_provider :: provider where
  "no_items_provider req = Inr (PDict [(''kind'', PStr ''customsearch#search'')])"

text \<open>
  A run of the agent: it calls the tool for May 21, reports the call and the answer, and
  gives its final text.
\<close>

definition example_run :: "prompt \<Rightarrow> run" where
  "example_run p =
     Yield \<lparr>etype = ''tool_code'',
            tool_code = Some \<lparr>tool_name = ''get_special_day_info_from_external_source'',
                              args = PDict [(''date_query'', PStr ''May 21'')]\<rparr>,
            tool_response = None, agent_response = None, error_message = None\<rparr>
       (CallTool ''May 21'' (\<lambda>r.
          Yield \<lparr>etype = ''tool_response'', tool_code = None,
                 tool_response = Some (PStr ''International Day of X''),
                 agent_response = None, error_message = None\<rparr>
            (Yield \<lparr>etype = ''agent_response'', tool_code = None, tool_response = None,
                    agent_response = Some ''Happy International Day of X'',
                    error_message = None\<rparr>
               Done)))"

text \<open>
  The member names of \<open>HarmCategory\<close> in the framework: each starts with
  \<open>HARM_CATEGORY_\<close>.
\<close>

definition framework_HarmCategory :: "string list" where
  "framework_HarmCategory =
     [''HARM_CATEGORY_UNSPECIFIED'', ''HARM_CATEGORY_DEROGATORY'', ''HARM_CATEGORY_TOXICITY'',
      ''HARM_CATEGORY_VIOLENCE'', ''HARM_CATEGORY_SEXUAL'', ''HARM_CATEGORY_MEDICAL'',
      ''HARM_CATEGORY_DANGEROUS'', ''HARM_CATEGORY_HARASSMENT'', ''HARM_CATEGORY_HATE_SPEECH'',
      ''HARM_CATEGORY_SEXUALLY_EXPLICIT'', ''HARM_CATEGORY_DANGEROUS_CONTENT'']"

definition example_env :: env where
  "example_env =
     \<lparr>getenv_GOOGLE_CSE_API_KEY = Some ''key'', getenv_GOOGLE_CSE_ID = Some ''engine'',
      provider_of = example_provider, today = (2025, 5, 21),
      HarmCategory_members = framework_HarmCategory, runner_run = example_run\<rparr>"

definition env_without_key :: env where
  "env_without_key = example_env\<lparr>getenv_GOOGLE_CSE_API_KEY := None\<rparr>"

definition empty_title_provider :: provider where
  "empty_title_provider req =
     Inr (PDict [(''items'', PList ([example_item] @ PDict empty_title_item # [other_item]))])"



text \<open>A response with two accepted items of one title and an item that is no dict.\<close>

definition malformed_provider :: provider where
  "malformed_provider req =
     Inr (PDict [(''items'', PList [example_item, second_item, PStr ''x''])])"

section \<open>Strings: searching, splitting, trimming\<close>

lemma lower_examples:
  "lower ''International DAY of X'' = ''international day of x''"
  "lower ''@[`{ 09'' = ''@[`{ 09''"
  "lower_char (char_of (192 :: nat)) = char_of (224 :: nat)"
  "lower_char (char_of (215 :: nat)) = char_of (215 :: nat)"
  "lower_char (char_of (222 :: nat)) = char_of (254 :: nat)"
  "lower_char (char_of (223 :: nat)) = char_of (223 :: nat)"
  by code_simp+

lemma strip_examples:
  "strip ''  A day for X  '' = ''A day for X''"
  "strip (char_of (9 :: nat) # char_of (160 :: nat) # ''a b'' @ [char_of (133 :: nat), char_of (31 :: nat)]) = ''a b''"
  "strip ''   '' = []"
  by code_simp+

lemma split_examples:
  "split ''a...b....c......'' ''...'' = Inr [''a'', ''b'', ''.c'', [], []]"
  "split ''....x'' ''...'' = Inr [[], ''.x'']"
  "split [] ''...'' = Inr [[]]"
  by code_simp+

lemma str_contains_iff: "str_contains s sub \<longleftrightarrow> sublist sub s"
  by (induction s) (auto simp: str_contains_def sublist_Cons_right)

lemma find_str_None_iff: "find_str s sub = None \<longleftrightarrow> \<not> sublist sub s"
  using str_contains_iff[of s sub] by (auto simp: str_contains_def)

lemma find_str_take: "find_str s sep = Some i \<Longrightarrow> take i s = text_before_first sep s"
  by (induction s arbitrary: i) (auto split: if_splits)

lemma find_str_None_before: "find_str s sep = None \<Longrightarrow> text_before_first sep s = s"
  by (induction s) (auto split: if_splits)

lemma split_first:
  "sep \<noteq> [] \<Longrightarrow> \<exists>rest. split_nonempty sep s = text_before_first sep s # rest"
  by (subst split_nonempty.simps) (auto split: option.splits simp: find_str_take find_str_None_before)

lemma split_dots: "\<exists>rest. split s ''...'' = Inr (text_before_first ''...'' s # rest)"
  using split_first[of "''...''" s] by (auto simp: split_def)

lemma text_before_first_prefix: "prefix (text_before_first sep s) s"
  by (induction s) auto



lemma text_before_first_no_sep:
  "sep \<noteq> [] \<Longrightarrow> \<not> sublist sep (text_before_first sep s)"
proof (induction s)
  case Nil
  then show ?case by simp
next
  case (Cons c cs)
  show ?case
  proof (cases "prefix sep (c # cs)")
    case True
    with Cons.prems show ?thesis by simp
  next
    case False
    have "prefix (c # text_before_first sep cs) (c # cs)"
      by (simp add: text_before_first_prefix)
    with False have "\<not> prefix sep (c # text_before_first sep cs)"
      using prefix_order.trans by blast
    with False Cons show ?thesis by (simp add: sublist_Cons_right)
  qed
qed


lemma strip_sublist: "sublist (strip s) s"
proof -
  have "sublist (dropWhile isspace (rev (dropWhile isspace s))) (rev (dropWhile isspace s))"
    by simp
  then have "sublist (strip s) (dropWhile isspace s)"
    unfolding strip_def by (simp add: sublist_rev_left)
  also have "sublist (dropWhile isspace s) s" by simp
  finally show ?thesis .
qed

lemma hd_dropWhile_rev:
  "xs \<noteq> [] \<Longrightarrow> \<not> P (hd xs) \<Longrightarrow> rev (dropWhile P (rev xs)) \<noteq> [] \<and> hd (rev (dropWhile P (rev xs))) = hd xs"
proof (induction xs rule: rev_induct)
  case Nil then show ?case by simp
next
  case (snoc x xs)
  then show ?case by (cases xs) (auto simp: hd_append)
qed

lemma strip_ends: "strip s \<noteq> [] \<Longrightarrow> \<not> isspace (hd (strip s)) \<and> \<not> isspace (last (strip s))"
proof -
  assume ne: "strip s \<noteq> []"
  let ?a = "dropWhile isspace s"
  have a: "?a \<noteq> []"
  proof
    assume "?a = []"
    then have "strip s = []" by (simp only: strip_def rev.simps dropWhile.simps)
    with ne show False by simp
  qed
  then have h: "\<not> isspace (hd ?a)" by (rule hd_dropWhile)
  from hd_dropWhile_rev[of "dropWhile isspace s" isspace, OF a h] have "hd (strip s) = hd ?a" by (simp add: strip_def)
  with h have 1: "\<not> isspace (hd (strip s))" by simp
  have b: "dropWhile isspace (rev ?a) \<noteq> []"
  proof
    assume "dropWhile isspace (rev ?a) = []"
    then have "strip s = []" by (simp only: strip_def rev.simps)
    with ne show False by simp
  qed
  then have "\<not> isspace (hd (dropWhile isspace (rev ?a)))" by (rule hd_dropWhile)
  with b have 2: "\<not> isspace (last (strip s))" by (simp add: strip_def last_rev)
  from 1 2 show ?thesis by simp
qed

lemma title_matches_code: "str_contains (lower t) ''day'' \<or> str_contains (lower t) ''observance'' \<longleftrightarrow> title_matches t"
  by (simp add: str_contains_iff title_matches_def)

lemma title_matches_iff:
  "title_matches t \<longleftrightarrow> (\<exists>w. sublist w t \<and> (lower w = ''day'' \<or> lower w = ''observance''))"
proof
  assume "title_matches t"
  then show "\<exists>w. sublist w t \<and> (lower w = ''day'' \<or> lower w = ''observance'')"
    unfolding title_matches_def lower_def by (metis sublist_map_rightE)
next
  assume "\<exists>w. sublist w t \<and> (lower w = ''day'' \<or> lower w = ''observance'')"
  then show "title_matches t"
    unfolding title_matches_def lower_def by (metis map_mono_sublist)
qed

section \<open>One item, the loop, the response\<close>

lemma entry_of_SomeD:
  "entry_of it = Some (t, d) \<Longrightarrow>
     \<exists>kvs s. it = PDict kvs \<and> map_of kvs ''title'' = Some (PStr t) \<and>
       map_of kvs ''snippet'' = Some (PStr s) \<and> t \<noteq> [] \<and> s \<noteq> [] \<and> title_matches t \<and>
       d = strip (text_before_first ''...'' s)"
  unfolding entry_of_def
  by (simp split: pyval.splits option.splits if_splits)

lemma process_item_accepted:
  assumes "entry_of it = Some (t, d)"
  shows "process_item r it = Inr (if map_of r t = None then r @ [(t, d)] else r)"
proof -
  from entry_of_SomeD[OF assms] obtain kvs s where
    it: "it = PDict kvs" and t: "map_of kvs ''title'' = Some (PStr t)" and
    s: "map_of kvs ''snippet'' = Some (PStr s)" and ne: "t \<noteq> []" "s \<noteq> []" and
    m: "title_matches t" and d: "d = strip (text_before_first ''...'' s)"
    by blast
  from m have c: "str_contains (lower t) ''day'' \<or> str_contains (lower t) ''observance''"
    by (simp only: title_matches_code)
  obtain rest where sp: "split s ''...'' = Inr (text_before_first ''...'' s # rest)"
    using split_dots by blast
  show ?thesis
    unfolding process_item_def it using c
    by (simp only: py_get.simps t s option.case sum.case truthy.simps ne pyval.case sp list.case Let_def d if_True simp_thms)
      simp
qed

lemma process_item_rejected:
  assumes "process_item r it = Inr r'" and "entry_of it = None"
  shows "r' = r"
proof (cases it)
  case (PDict kvs)
  have nm: "\<not> title_matches t \<Longrightarrow> \<not> str_contains (lower t) ''day'' \<and> \<not> str_contains (lower t) ''observance''" for t
    using title_matches_code[of t] by simp
  from assms(2) PDict have e:
    "\<And>t s. map_of kvs ''title'' = Some (PStr t) \<Longrightarrow> map_of kvs ''snippet'' = Some (PStr s) \<Longrightarrow>
       t = [] \<or> s = [] \<or> \<not> title_matches t"
    by (auto simp: entry_of_def split: if_splits)
  show ?thesis
  proof (cases "map_of kvs ''title''")
    case None
    with assms(1) PDict show ?thesis by (simp add: process_item_def)
  next
    case (Some title)
    note title = this
    show ?thesis
    proof (cases "map_of kvs ''snippet''")
      case None
      with assms(1) PDict title show ?thesis by (simp add: process_item_def)
    next
      case (Some snippet)
      show ?thesis
      proof (cases "truthy title \<and> truthy snippet")
        case False
        with assms(1) PDict title Some show ?thesis by (simp add: process_item_def)
      next
        case True
        show ?thesis
        proof (cases title)
          case (PStr t)
          show ?thesis
          proof (cases snippet)
            case (PStr s)
            with e[of t s] title Some \<open>title = PStr t\<close> True have "\<not> title_matches t" by simp
            from nm[OF this] assms(1) PDict title Some True \<open>title = PStr t\<close> show ?thesis
              by (simp add: process_item_def)
          qed (use assms(1) PDict title Some True PStr in \<open>simp_all add: process_item_def split: if_splits\<close>)
        qed (use assms(1) PDict title Some True in \<open>simp_all add: process_item_def\<close>)
      qed
    qed
  qed
qed (use assms(1) in \<open>simp_all add: process_item_def\<close>)

lemma process_item_not_dict:
  "(\<forall>kvs. it \<noteq> PDict kvs) \<Longrightarrow> process_item r it = Inl (AttributeError (type_name it) ''get'')"
  unfolding process_item_def by (cases it) simp_all

lemma process_item_step:
  assumes "process_item r it = Inr r'"
  shows "r' = (case entry_of it of None \<Rightarrow> r
               | Some (t, d) \<Rightarrow> if map_of r t = None then r @ [(t, d)] else r)"
proof (cases "entry_of it")
  case None
  with process_item_rejected[OF assms] show ?thesis by simp
next
  case (Some e)
  obtain t d where "e = (t, d)" by (cases e)
  with Some assms process_item_accepted[of it t d r] show ?thesis by simp
qed

lemma process_items_append:
  "process_items (xs @ ys) r =
     (case process_items xs r of Inl e \<Rightarrow> Inl e | Inr r' \<Rightarrow> process_items ys r')"
  by (induction xs arbitrary: r) (auto split: sum.splits)

lemma process_items_source:
  "process_items items r = Inr m \<Longrightarrow> e \<in> set m \<Longrightarrow>
     e \<in> set r \<or> (\<exists>it \<in> set items. entry_of it = Some e)"
proof (induction items arbitrary: r)
  case Nil
  then show ?case by simp
next
  case (Cons it items)
  from Cons.prems(1) obtain r' where 1: "process_item r it = Inr r'" and 2: "process_items items r' = Inr m"
    by (auto split: sum.splits)
  from Cons.IH[OF 2 Cons.prems(2)] process_item_step[OF 1] show ?case
    by (auto split: option.splits if_splits)
qed

lemma process_items_keeps:
  "process_items items r = Inr m \<Longrightarrow> map_of r t = Some d \<Longrightarrow> map_of m t = Some d"
proof (induction items arbitrary: r)
  case Nil
  then show ?case by simp
next
  case (Cons it items)
  from Cons.prems(1) obtain r' where 1: "process_item r it = Inr r'" and 2: "process_items items r' = Inr m"
    by (auto split: sum.splits)
  from process_item_step[OF 1] Cons.prems(2) have "map_of r' t = Some d"
    by (auto split: option.splits if_splits simp: map_add_Some_iff)
  with Cons.IH[OF 2] show ?case by simp
qed

lemma process_items_first:
  assumes "process_items (pre @ it # post) r = Inr m"
    and "entry_of it = Some (t, d)"
    and "map_of r t = None"
    and "\<forall>x \<in> set pre. \<forall>d'. entry_of x \<noteq> Some (t, d')"
  shows "map_of m t = Some d"
  using assms
proof (induction pre arbitrary: r)
  case Nil
  from Nil.prems(1) obtain r' where 1: "process_item r it = Inr r'" and 2: "process_items post r' = Inr m"
    by (auto split: sum.splits)
  from 1 process_item_accepted[OF Nil.prems(2), of r] Nil.prems(3) have "r' = r @ [(t, d)]" by simp
  with Nil.prems(3) have "map_of r' t = Some d" by (simp add: map_add_Some_iff)
  with process_items_keeps[OF 2] show ?case by simp
next
  case (Cons x pre)
  from Cons.prems(1) obtain r' where 1: "process_item r x = Inr r'"
    and 2: "process_items (pre @ it # post) r' = Inr m"
    by (auto split: sum.splits)
  from process_item_step[OF 1] Cons.prems(3,4) have "map_of r' t = None"
    by (auto split: option.splits if_splits simp: map_add_def)
  with Cons.IH[OF 2 Cons.prems(2)] Cons.prems(4) show ?case by simp
qed

lemma process_items_distinct:
  "process_items items r = Inr m \<Longrightarrow> distinct (map fst r) \<Longrightarrow> distinct (map fst m)"
proof (induction items arbitrary: r)
  case Nil
  then show ?case by simp
next
  case (Cons it items)
  from Cons.prems(1) obtain r' where 1: "process_item r it = Inr r'" and 2: "process_items items r' = Inr m"
    by (auto split: sum.splits)
  from process_item_step[OF 1] Cons.prems(2) have "distinct (map fst r')"
    by (auto split: option.splits if_splits simp: map_of_eq_None_iff)
  with Cons.IH[OF 2] show ?case by simp
qed

lemma process_items_str:
  "process_items (PStr k # rest) r = Inl (AttributeError ''str'' ''get'')"
  by (simp add: process_item_def)

lemma collect_nonempty:
  assumes "collect res = Inr m" and "m \<noteq> []"
  shows "\<exists>kvs items. res = PDict kvs \<and> map_of kvs ''items'' = Some (PList items) \<and>
           process_items items [] = Inr m"
proof (cases res)
  case (PDict kvs)
  show ?thesis
  proof (cases "map_of kvs ''items''")
    case None
    with assms PDict show ?thesis by (simp add: collect_def)
  next
    case (Some v)
    show ?thesis
    proof (cases v)
      case (PList items)
      with assms PDict Some show ?thesis by (simp add: collect_def)
    next
      case (PStr s)
      with assms PDict Some show ?thesis
        by (cases s) (simp_all add: collect_def process_items_str del: process_items.simps(2))
    next
      case (PDict kvs')
      with assms \<open>res = PDict kvs\<close> Some show ?thesis
        by (cases "dict_keys kvs'") (simp_all add: collect_def process_items_str del: process_items.simps(2))
    qed (use assms PDict Some in \<open>simp_all add: collect_def\<close>)
  qed
qed (use assms in \<open>auto simp: collect_def split: bool.splits\<close>)

lemma collect_no_items:
  assumes "\<forall>kvs. res = PDict kvs \<longrightarrow> map_of kvs ''items'' = None"
  shows "collect res = Inr [] \<or> (\<exists>e. collect res = Inl e)"
  using assms by (cases res) (auto simp: collect_def split: bool.splits)

lemma tool_result:
  "fst (get_special_day_info_from_external_source cfg prov dq w) =
     Inr (case prov (search_request cfg dq) of
            Inl e \<Rightarrow> []
          | Inr res \<Rightarrow> (case collect res of Inl e \<Rightarrow> [] | Inr m \<Rightarrow> m))"
  by (simp add: get_special_day_info_from_external_source_def search_special_days_def Let_def
      split: sum.splits)

lemma tool_nonempty:
  assumes "fst (get_special_day_info_from_external_source cfg prov dq w) = Inr m" and "m \<noteq> []"
  shows "\<exists>kvs items. prov (search_request cfg dq) = Inr (PDict kvs) \<and>
           map_of kvs ''items'' = Some (PList items) \<and> process_items items [] = Inr m"
proof -
  from assms obtain res where 1: "prov (search_request cfg dq) = Inr res" and 2: "collect res = Inr m"
    unfolding tool_result by (auto split: sum.splits)
  from collect_nonempty[OF 2 assms(2)] 1 show ?thesis by auto
qed

lemma tool_entry_source:
  assumes "fst (get_special_day_info_from_external_source cfg prov dq w) = Inr m"
    and "(t, d) \<in> set m"
  shows "\<exists>kvs items it. prov (search_request cfg dq) = Inr (PDict kvs) \<and>
           map_of kvs ''items'' = Some (PList items) \<and> it \<in> set items \<and>
           entry_of it = Some (t, d)"
proof -
  from assms(2) have "m \<noteq> []" by auto
  from tool_nonempty[OF assms(1) this] obtain kvs items where
    1: "prov (search_request cfg dq) = Inr (PDict kvs)" "map_of kvs ''items'' = Some (PList items)"
    and 2: "process_items items [] = Inr m" by blast
  from process_items_source[OF 2 assms(2)] obtain it where "it \<in> set items" "entry_of it = Some (t, d)"
    by auto
  with 1 show ?thesis by blast
qed

lemma example_provider_result:
  "fst (get_special_day_info_from_external_source example_config example_provider ''May 21'' empty_world)
     = Inr [(''International Day of X'', ''A day for X'')]"
  unfolding tool_result by code_simp

lemma example_entries:
  "entry_of example_item = Some (''International Day of X'', ''A day for X'')"
  "entry_of second_item = Some (''International Day of X'', ''Another text'')"
  "entry_of other_item = None"
  by code_simp+




section \<open>The agent and the script\<close>

lemma script_needs_both_spellings:
  assumes "fst (script env w) = Completed"
  shows "''HARM_CATEGORY_HARASSMENT'' \<in> set (HarmCategory_members env) \<and>
         ''HARMS_CATEGORY_HATE_SPEECH'' \<in> set (HarmCategory_members env)"
  using assms
  by (auto simp: script_def Let_def SpecialDayAgent_init_def safety_settings_def
      getattr_HarmCategory_def split: if_splits sum.splits)

lemma framework_has_no_HARMS:
  "''HARM_CATEGORY_HARASSMENT'' \<in> set framework_HarmCategory"
  "''HARMS_CATEGORY_HATE_SPEECH'' \<notin> set framework_HarmCategory"
  by (simp_all add: framework_HarmCategory_def)

lemma SpecialDayAgent_init_framework:
  "SpecialDayAgent_init framework_HarmCategory
     = Inl (AttributeError ''HarmCategory'' ''HARMS_CATEGORY_HATE_SPEECH'')"
  by (simp add: SpecialDayAgent_init_def safety_settings_def getattr_HarmCategory_def
      framework_has_no_HARMS)

lemma daily_check_errors_are_caught:
  "fst (run_daily_check cfg env w) = Inr () \<and>
   (\<forall>e w'. consume cfg (provider_of env) (runner_run env (DailyPrompt (today env)))
              ((logging_info (InitialPrompt (DailyPrompt (today env)))
                  (print (RunningFor (today env)) w))
                 \<lparr>prompts := prompts w @ [DailyPrompt (today env)]\<rparr>) = (Some e, w') \<longrightarrow>
       snd (run_daily_check cfg env w)
         = print (UnhandledError e) (logging_exception UnhandledRunError e w')) \<and>
   (\<forall>ev m rest w0. etype ev = ''error'' \<longrightarrow> error_message ev = Some m \<longrightarrow>
       consume cfg (provider_of env) (Yield ev rest) w0
         = (None, print (AgentError m) (logging_error (EventError m) w0)))"
proof -
  have 1: "fst (run_daily_check cfg env w) = Inr ()"
    by (simp add: run_daily_check_def Let_def split: prod.splits option.splits)
  have 2: "snd (run_daily_check cfg env w)
         = print (UnhandledError e) (logging_exception UnhandledRunError e w')"
    if "consume cfg (provider_of env) (runner_run env (DailyPrompt (today env)))
              ((logging_info (InitialPrompt (DailyPrompt (today env)))
                  (print (RunningFor (today env)) w))
                 \<lparr>prompts := prompts w @ [DailyPrompt (today env)]\<rparr>) = (Some e, w')" for e w'
  proof -
    have "prompts (logging_info (InitialPrompt (DailyPrompt (today env)))
                  (print (RunningFor (today env)) w)) = prompts w"
      by (simp add: logging_info_def print_def)
    with that show ?thesis by (simp add: run_daily_check_def Let_def)
  qed
  have 3: "consume cfg (provider_of env) (Yield ev rest) w0
         = (None, print (AgentError m) (logging_error (EventError m) w0))"
    if "etype ev = ''error''" "error_message ev = Some m" for ev m rest w0
    using that by simp
  from 1 2 3 show ?thesis by blast
qed

section \<open>The claims\<close>

text \<open>
  C1. For every date query, configuration, provider and world, the lookup tool returns a
  mapping and raises nothing; and whenever the search routine raises, the tool returns
  the empty mapping and the log has gained one error record that names the query and the
  exception.
\<close>

theorem lookup_never_raises:
  "(\<exists>m. fst (get_special_day_info_from_external_source cfg prov dq w) = Inr m) \<and>
   (\<forall>e w'. search_special_days cfg prov dq (logging_info (ToolCalled dq) w) = (Inl e, w') \<longrightarrow>
      get_special_day_info_from_external_source cfg prov dq w
        = (Inr [], logging_error (ToolFetchError dq e) w'))"
proof -
  let ?w1 = "logging_info (ToolCalled dq) w"
  obtain r w2 where s: "search_special_days cfg prov dq ?w1 = (r, w2)"
    by (cases "search_special_days cfg prov dq ?w1")
  have returns: "\<exists>m. fst (get_special_day_info_from_external_source cfg prov dq w) = Inr m"
  proof (cases r)
    case (Inl e)
    with s show ?thesis
      by (simp add: get_special_day_info_from_external_source_def Let_def)
  next
    case (Inr results)
    with s show ?thesis
      by (simp add: get_special_day_info_from_external_source_def Let_def)
  qed
  have absorbed: "get_special_day_info_from_external_source cfg prov dq w
        = (Inr [], logging_error (ToolFetchError dq e) w')"
    if "search_special_days cfg prov dq ?w1 = (Inl e, w')" for e w'
    using that by (simp add: get_special_day_info_from_external_source_def Let_def)
  from returns absorbed show ?thesis by blast
qed

theorem lookup_never_raises_witness:
  "search_special_days example_config failing_provider ''May 21''
      (logging_info (ToolCalled ''May 21'') empty_world)
     = (Inl (ProviderError ''timed out''),
        \<lparr>logged = [\<lparr>lvl = INFO, msg = ToolCalled ''May 21'', exc_info = None\<rparr>,
                   \<lparr>lvl = INFO, msg = AttemptingSearch, exc_info = None\<rparr>,
                   \<lparr>lvl = INFO, msg = SearchQuery
                      ''international OR world OR national day May 21 official observances'',
                     exc_info = None\<rparr>],
         console = [],
         requests = [\<lparr>api = ''customsearch'', version = ''v1'', developerKey = ''key'',
                      q = ''international OR world OR national day May 21 official observances'',
                      cx = ''engine'', num = 5\<rparr>],
         prompts = []\<rparr>) \<and>
   get_special_day_info_from_external_source example_config failing_provider ''May 21'' empty_world
     = (Inr [],
        \<lparr>logged = [\<lparr>lvl = INFO, msg = ToolCalled ''May 21'', exc_info = None\<rparr>,
                   \<lparr>lvl = INFO, msg = AttemptingSearch, exc_info = None\<rparr>,
                   \<lparr>lvl = INFO, msg = SearchQuery
                      ''international OR world OR national day May 21 official observances'',
                     exc_info = None\<rparr>,
                   \<lparr>lvl = ERROR, msg = ToolFetchError ''May 21'' (ProviderError ''timed out''),
                     exc_info = None\<rparr>],
         console = [],
         requests = [\<lparr>api = ''customsearch'', version = ''v1'', developerKey = ''key'',
                      q = ''international OR world OR national day May 21 official observances'',
                      cx = ''engine'', num = 5\<rparr>],
         prompts = []\<rparr>)"
proof -
  have h: "search_special_days example_config failing_provider ''May 21''
      (logging_info (ToolCalled ''May 21'') empty_world)
     = (Inl (ProviderError ''timed out''),
        \<lparr>logged = [\<lparr>lvl = INFO, msg = ToolCalled ''May 21'', exc_info = None\<rparr>,
                   \<lparr>lvl = INFO, msg = AttemptingSearch, exc_info = None\<rparr>,
                   \<lparr>lvl = INFO, msg = SearchQuery
                      ''international OR world OR national day May 21 official observances'',
                     exc_info = None\<rparr>],
         console = [],
         requests = [\<lparr>api = ''customsearch'', version = ''v1'', developerKey = ''key'',
                      q = ''international OR world OR national day May 21 official observances'',
                      cx = ''engine'', num = 5\<rparr>],
         prompts = []\<rparr>)"
    by (simp add: search_special_days_def failing_provider_def logging_info_def empty_world_def
        search_request_def search_query_def example_config_def)
  from lookup_never_raises[THEN conjunct2, rule_format, OF h] h show ?thesis
    by (simp add: logging_error_def)
qed

text \<open>
  C2. Whatever the tool returns, every title in it is the title of an item of the
  response that has a title and a snippet, both strings, and whose title contains
  \<open>day\<close> or \<open>observance\<close> in some letter case; a title that contains neither is
  no key of the result.
\<close>

theorem only_matching_titles_kept:
  assumes "fst (get_special_day_info_from_external_source cfg prov dq w) = Inr m"
  shows "(\<forall>t d. (t, d) \<in> set m \<longrightarrow>
            (\<exists>kvs items item s. prov (search_request cfg dq) = Inr (PDict kvs) \<and>
               map_of kvs ''items'' = Some (PList items) \<and> PDict item \<in> set items \<and>
               map_of item ''title'' = Some (PStr t) \<and> map_of item ''snippet'' = Some (PStr s) \<and>
               t \<noteq> [] \<and> s \<noteq> [] \<and> title_matches t)) \<and>
         (\<forall>t. \<not> title_matches t \<longrightarrow> t \<notin> fst ` set m)"
proof -
  have 1: "\<exists>kvs items item s. prov (search_request cfg dq) = Inr (PDict kvs) \<and>
               map_of kvs ''items'' = Some (PList items) \<and> PDict item \<in> set items \<and>
               map_of item ''title'' = Some (PStr t) \<and> map_of item ''snippet'' = Some (PStr s) \<and>
               t \<noteq> [] \<and> s \<noteq> [] \<and> title_matches t" if "(t, d) \<in> set m" for t d
  proof -
    from tool_entry_source[OF assms that] obtain kvs items it where
      a: "prov (search_request cfg dq) = Inr (PDict kvs)" "map_of kvs ''items'' = Some (PList items)"
         "it \<in> set items" and e: "entry_of it = Some (t, d)" by blast
    from entry_of_SomeD[OF e] a show ?thesis by blast
  qed
  then have "\<not> title_matches t \<Longrightarrow> t \<notin> fst ` set m" for t by fastforce
  with 1 show ?thesis by blast
qed

theorem only_matching_titles_kept_witness:
  "fst (get_special_day_info_from_external_source example_config example_provider ''May 21'' empty_world)
     = Inr [(''International Day of X'', ''A day for X'')] \<and>
   (\<exists>kvs items item s. example_provider (search_request example_config ''May 21'') = Inr (PDict kvs) \<and>
      map_of kvs ''items'' = Some (PList items) \<and> PDict item \<in> set items \<and>
      map_of item ''title'' = Some (PStr ''International Day of X'') \<and>
      map_of item ''snippet'' = Some (PStr s) \<and> ''International Day of X'' \<noteq> [] \<and> s \<noteq> [] \<and>
      title_matches ''International Day of X'') \<and>
   \<not> title_matches ''Weather forecast'' \<and>
   ''Weather forecast'' \<notin> fst ` set [(''International Day of X'', ''A day for X'')]"
proof -
  have n: "\<not> title_matches ''Weather forecast''" by code_simp
  from only_matching_titles_kept[OF example_provider_result] n show ?thesis
    using example_provider_result by simp
qed

text \<open>
  C4, as stated, fails: a response with two accepted items of one title and a third item
  that is no dict makes the search routine raise, and the tool returns the empty mapping,
  which holds no description for the title.
\<close>

theorem malformed_item_empties_result:
  "malformed_provider (search_request example_config ''May 21'')
     = Inr (PDict [(''items'', PList [example_item, second_item, PStr ''x''])]) \<and>
   entry_of example_item = Some (''International Day of X'', ''A day for X'') \<and>
   entry_of second_item = Some (''International Day of X'', ''Another text'') \<and>
   fst (search_special_days example_config malformed_provider ''May 21''
          (logging_info (ToolCalled ''May 21'') empty_world))
     = Inl (AttributeError ''str'' ''get'') \<and>
   fst (get_special_day_info_from_external_source example_config malformed_provider ''May 21''
          empty_world) = Inr [] \<and>
   map_of [] ''International Day of X'' \<noteq> Some ''A day for X''"
proof -
  have c: "collect (PDict [(''items'', PList [example_item, second_item, PStr ''x''])])
             = Inl (AttributeError ''str'' ''get'')"
    by code_simp
  have s: "fst (search_special_days example_config malformed_provider ''May 21''
          (logging_info (ToolCalled ''May 21'') empty_world))
     = Inl (AttributeError ''str'' ''get'')"
    by (simp add: search_special_days_def Let_def malformed_provider_def c)
  have t: "fst (get_special_day_info_from_external_source example_config malformed_provider ''May 21''
          empty_world) = Inr []"
    unfolding tool_result by (simp add: malformed_provider_def c)
  from s t example_entries show ?thesis by (simp add: malformed_provider_def)
qed

text \<open>
  C4, amended. Where the search routine returns normally and the response has an accepted
  item with no accepted item of the same title before it, the result maps the title to the
  description of that item, whatever items follow, and holds the title once.
\<close>

theorem first_description_wins:
  assumes "prov (search_request cfg dq) = Inr (PDict kvs)"
    and "map_of kvs ''items'' = Some (PList (pre @ item # post))"
    and "entry_of item = Some (t, d)"
    and "\<forall>x \<in> set pre. \<forall>d'. entry_of x \<noteq> Some (t, d')"
    and "fst (search_special_days cfg prov dq w0) = Inr m"
  shows "fst (get_special_day_info_from_external_source cfg prov dq w) = Inr m \<and>
         map_of m t = Some d \<and> distinct (map fst m) \<and> (\<forall>d'. (t, d') \<in> set m \<longrightarrow> d' = d)"
proof -
  from assms(1,5) have c: "collect (PDict kvs) = Inr m"
    by (auto simp: search_special_days_def Let_def split: sum.splits)
  with assms(2) have p: "process_items (pre @ item # post) [] = Inr m"
    by (simp add: collect_def)
  from c assms(1) have 1: "fst (get_special_day_info_from_external_source cfg prov dq w) = Inr m"
    unfolding tool_result by simp
  from process_items_first[OF p assms(3) _ assms(4)] have 2: "map_of m t = Some d" by simp
  from process_items_distinct[OF p] have 3: "distinct (map fst m)" by simp
  have 4: "\<forall>d'. (t, d') \<in> set m \<longrightarrow> d' = d"
  proof (intro allI impI)
    fix d' assume "(t, d') \<in> set m"
    with 3 have "map_of m t = Some d'" by (rule map_of_is_SomeI)
    with 2 show "d' = d" by simp
  qed
  from 1 2 3 4 show ?thesis by blast
qed

theorem first_description_wins_witness:
  "example_provider (search_request example_config ''May 21'')
     = Inr (PDict [(''items'', PList ([] @ example_item # [second_item, other_item]))]) \<and>
   map_of [(''items'', PList ([] @ example_item # [second_item, other_item]))] ''items''
     = Some (PList ([] @ example_item # [second_item, other_item])) \<and>
   entry_of example_item = Some (''International Day of X'', ''A day for X'') \<and>
   entry_of second_item = Some (''International Day of X'', ''Another text'') \<and>
   fst (search_special_days example_config example_provider ''May 21'' empty_world)
     = Inr [(''International Day of X'', ''A day for X'')] \<and>
   fst (get_special_day_info_from_external_source example_config example_provider ''May 21'' empty_world)
     = Inr [(''International Day of X'', ''A day for X'')] \<and>
   map_of [(''International Day of X'', ''A day for X'')] ''International Day of X''
     = Some ''A day for X''"
proof -
  have p: "example_provider (search_request example_config ''May 21'')
     = Inr (PDict [(''items'', PList ([] @ example_item # [second_item, other_item]))])"
    by (simp add: example_provider_def)
  have i: "map_of [(''items'', PList ([] @ example_item # [second_item, other_item]))] ''items''
     = Some (PList ([] @ example_item # [second_item, other_item]))"
    by simp
  have n: "\<forall>x \<in> set []. \<forall>d'. entry_of x \<noteq> Some (''International Day of X'', d')"
    by simp
  have c: "collect (PDict [(''items'', PList [example_item, second_item, other_item])])
             = Inr [(''International Day of X'', ''A day for X'')]"
    by code_simp
  have s: "fst (search_special_days example_config example_provider ''May 21'' empty_world)
     = Inr [(''International Day of X'', ''A day for X'')]"
    by (simp add: search_special_days_def Let_def example_provider_def c)
  from first_description_wins[OF p i example_entries(1) n s, of empty_world]
    p i example_entries(1,2) s
  show ?thesis by simp
qed

text \<open>
  C5. A response that is no dict with an \<open>items\<close> key gives the empty mapping.
\<close>

theorem no_items_field_gives_empty_mapping:
  assumes "prov (search_request cfg dq) = Inr res"
    and "\<forall>kvs. res = PDict kvs \<longrightarrow> map_of kvs ''items'' = None"
  shows "fst (get_special_day_info_from_external_source cfg prov dq w) = Inr []"
  using collect_no_items[OF assms(2)] assms(1) unfolding tool_result by auto

theorem no_items_field_gives_empty_mapping_witness:
  "no_items_provider (search_request example_config ''May 21'')
     = Inr (PDict [(''kind'', PStr ''customsearch#search'')]) \<and>
   map_of [(''kind'', PStr ''customsearch#search'')] ''items'' = None \<and>
   fst (get_special_day_info_from_external_source example_config no_items_provider ''May 21''
          empty_world) = Inr []"
proof -
  have p: "no_items_provider (search_request example_config ''May 21'')
     = Inr (PDict [(''kind'', PStr ''customsearch#search'')])"
    by (simp add: no_items_provider_def)
  have n: "\<forall>kvs. PDict [(''kind'', PStr ''customsearch#search'')] = PDict kvs \<longrightarrow>
             map_of kvs ''items'' = None"
    by simp
  from no_items_field_gives_empty_mapping
         [where prov = no_items_provider and cfg = example_config and dq = "''May 21''"
            and res = "PDict [(''kind'', PStr ''customsearch#search'')]" and w = empty_world,
          OF p n] p
  show ?thesis by simp
qed

text \<open>
  C6. One call of the tool adds exactly one request to those sent to the provider: its
  query is the fixed words around the date query, its engine is the configured one and
  its result limit is 5.
\<close>

theorem one_request_with_fixed_query_and_limit:
  "requests (snd (get_special_day_info_from_external_source cfg prov dq w))
     = requests w @
       [\<lparr>api = ''customsearch'', version = ''v1'', developerKey = GOOGLE_CSE_API_KEY cfg,
         q = ''international OR world OR national day '' @ dq @ '' official observances'',
         cx = GOOGLE_CSE_ID cfg, num = 5\<rparr>]"
  by (simp add: get_special_day_info_from_external_source_def search_special_days_def Let_def
      search_request_def search_query_def logging_info_def logging_error_def
      split: sum.splits)

theorem one_request_with_fixed_query_and_limit_witness:
  "requests (snd (get_special_day_info_from_external_source example_config example_provider
                    ''May 21'' empty_world))
     = [\<lparr>api = ''customsearch'', version = ''v1'', developerKey = ''key'',
         q = ''international OR world OR national day May 21 official observances'',
         cx = ''engine'', num = 5\<rparr>]"
  using one_request_with_fixed_query_and_limit[of example_config example_provider "''May 21''" empty_world]
  by (simp add: example_config_def empty_world_def)

text \<open>
  C9. Every description the tool returns has no occurrence of \<open>...\<close> and neither
  starts nor ends with a whitespace character.
\<close>

theorem descriptions_have_no_dots_and_are_trimmed:
  assumes "fst (get_special_day_info_from_external_source cfg prov dq w) = Inr m"
    and "(t, d) \<in> set m"
  shows "\<not> sublist ''...'' d \<and> (d \<noteq> [] \<longrightarrow> \<not> isspace (hd d) \<and> \<not> isspace (last d))"
proof -
  from tool_entry_source[OF assms] obtain it where "entry_of it = Some (t, d)" by blast
  from entry_of_SomeD[OF this] obtain s where d: "d = strip (text_before_first ''...'' s)" by blast
  have "\<not> sublist ''...'' (text_before_first ''...'' s)"
    by (rule text_before_first_no_sep) simp
  moreover have "sublist d (text_before_first ''...'' s)"
    unfolding d by (rule strip_sublist)
  ultimately have 1: "\<not> sublist ''...'' d"
    using sublist_order.order.trans by blast
  from strip_ends[of "text_before_first ''...'' s"] d
  have 2: "d \<noteq> [] \<longrightarrow> \<not> isspace (hd d) \<and> \<not> isspace (last d)" by simp
  from 1 2 show ?thesis by simp
qed

theorem descriptions_have_no_dots_and_are_trimmed_witness:
  "fst (get_special_day_info_from_external_source example_config example_provider ''May 21'' empty_world)
     = Inr [(''International Day of X'', ''A day for X'')] \<and>
   (''International Day of X'', ''A day for X'') \<in> set [(''International Day of X'', ''A day for X'')] \<and>
   \<not> sublist ''...'' ''A day for X'' \<and> ''A day for X'' \<noteq> [] \<and>
   \<not> isspace (hd ''A day for X'') \<and> \<not> isspace (last ''A day for X'')"
proof -
  have i: "(''International Day of X'', ''A day for X'') \<in> set [(''International Day of X'', ''A day for X'')]"
    by simp
  from descriptions_have_no_dots_and_are_trimmed[OF example_provider_result i]
    example_provider_result i
  show ?thesis by simp
qed

text \<open>
  C10. An item whose title or whose snippet is the empty string leaves the result dict as
  it is, and the tool returns what it returns for the response without that item.
\<close>

theorem empty_title_or_snippet_excluded:
  assumes "map_of item ''title'' = Some (PStr []) \<or> map_of item ''snippet'' = Some (PStr [])"
  shows "process_item r (PDict item) = Inr r \<and>
         (prov (search_request cfg dq) = Inr (PDict kvs) \<longrightarrow>
          map_of kvs ''items'' = Some (PList (pre @ PDict item # post)) \<longrightarrow>
          fst (get_special_day_info_from_external_source cfg prov dq w)
            = fst (get_special_day_info_from_external_source cfg
                     (\<lambda>req. Inr (PDict [(''items'', PList (pre @ post))])) dq w))"
proof -
  have 1: "process_item r (PDict item) = Inr r" for r
    using assms by (auto simp: process_item_def)
  have 2: "process_items (pre @ PDict item # post) [] = process_items (pre @ post) []"
    by (simp add: process_items_append 1 split: sum.splits)
  have "collect (PDict kvs) = collect (PDict [(''items'', PList (pre @ post))])"
    if "map_of kvs ''items'' = Some (PList (pre @ PDict item # post))"
    using that 2 by (simp add: collect_def)
  then show ?thesis using 1 unfolding tool_result by simp
qed

theorem empty_title_or_snippet_excluded_witness:
  "map_of empty_title_item ''title'' = Some (PStr []) \<and>
   process_item [(''International Day of X'', ''A day for X'')] (PDict empty_title_item)
     = Inr [(''International Day of X'', ''A day for X'')] \<and>
   empty_title_provider (search_request example_config ''May 21'')
     = Inr (PDict [(''items'', PList ([example_item] @ PDict empty_title_item # [other_item]))]) \<and>
   fst (get_special_day_info_from_external_source example_config empty_title_provider ''May 21''
          empty_world)
     = fst (get_special_day_info_from_external_source example_config
              (\<lambda>req. Inr (PDict [(''items'', PList ([example_item] @ [other_item]))])) ''May 21''
              empty_world)"
proof -
  have t: "map_of empty_title_item ''title'' = Some (PStr [])"
    by (simp add: empty_title_item_def)
  then have a: "map_of empty_title_item ''title'' = Some (PStr []) \<or>
                map_of empty_title_item ''snippet'' = Some (PStr [])" by simp
  have p: "empty_title_provider (search_request example_config ''May 21'')
     = Inr (PDict [(''items'', PList ([example_item] @ PDict empty_title_item # [other_item]))])"
    by (simp add: empty_title_provider_def)
  have i: "map_of [(''items'', PList ([example_item] @ PDict empty_title_item # [other_item]))] ''items''
     = Some (PList ([example_item] @ PDict empty_title_item # [other_item]))" by simp
  note th = empty_title_or_snippet_excluded
     [where item = empty_title_item and r = "[(''International Day of X'', ''A day for X'')]"
        and prov = empty_title_provider and cfg = example_config and dq = "''May 21''"
        and kvs = "[(''items'', PList ([example_item] @ PDict empty_title_item # [other_item]))]"
        and pre = "[example_item]" and post = "[other_item]" and w = empty_world, OF a]
  from th[THEN conjunct1] th[THEN conjunct2, rule_format, OF p i] t p
  show ?thesis by blast
qed

text \<open>
  C7. Where either configuration value is absent (or empty), the script ends with
  \<open>sys.exit(1)\<close>, having written one error record and nothing else: no request went to
  the provider, no prompt to the runtime, nothing to the console.
\<close>

theorem missing_configuration_exits:
  assumes "not_set (getenv_GOOGLE_CSE_API_KEY env) \<or> not_set (getenv_GOOGLE_CSE_ID env)"
  shows "fst (script env w) = Exit 1 \<and>
         requests (snd (script env w)) = requests w \<and>
         prompts (snd (script env w)) = prompts w \<and>
         console (snd (script env w)) = console w \<and>
         logged (snd (script env w))
           = logged w @ [\<lparr>lvl = ERROR, msg = MissingConfig, exc_info = None\<rparr>]"
  using assms by (auto simp: script_def logging_error_def)

theorem missing_configuration_exits_witness:
  "getenv_GOOGLE_CSE_API_KEY env_without_key = None \<and>
   fst (script env_without_key empty_world) = Exit 1 \<and>
   requests (snd (script env_without_key empty_world)) = [] \<and>
   prompts (snd (script env_without_key empty_world)) = [] \<and>
   console (snd (script env_without_key empty_world)) = [] \<and>
   logged (snd (script env_without_key empty_world))
     = [\<lparr>lvl = ERROR, msg = MissingConfig, exc_info = None\<rparr>]"
proof -
  have k: "getenv_GOOGLE_CSE_API_KEY env_without_key = None"
    by (simp add: env_without_key_def)
  then have "not_set (getenv_GOOGLE_CSE_API_KEY env_without_key) \<or>
             not_set (getenv_GOOGLE_CSE_ID env_without_key)" by (simp add: not_set_def)
  from missing_configuration_exits[OF this, of empty_world] k show ?thesis
    by (simp add: empty_world_def)
qed



text \<open>
  C8. With both configuration values set, the script ends with an uncaught exception and
  not at its last line: line 128 looks up \<open>HARMS_CATEGORY_HATE_SPEECH\<close>, a name the
  enumeration of the framework does not have (its members are spelled as at line 127), while
  the agent is constructed at line 181, outside the \<open>try\<close> of lines 150 to 168.
\<close>

theorem uncaught_construction_error:
  "getenv_GOOGLE_CSE_API_KEY example_env = Some ''key'' \<and>
   getenv_GOOGLE_CSE_ID example_env = Some ''engine'' \<and>
   script example_env empty_world
     = (Uncaught (AttributeError ''HarmCategory'' ''HARMS_CATEGORY_HATE_SPEECH''), empty_world)"
  by (simp add: example_env_def script_def not_set_def SpecialDayAgent_init_framework)

end
